theory Spec2Isabelle
  imports Complex_Main
begin

unbundle bit_operations_syntax

section \<open>Python values, errors and sequences\<close>

text \<open>
  The embedding follows \<^verbatim>\<open>rtl_osv21.py\<close>. The bit stream comes from \<^verbatim>\<open>readRTLFile\<close> of the
  extension module \<^verbatim>\<open>_decode\<close>, which is not part of the Python source; it is a sequence of
  bits, each 0 or 1, so a bit is a \<open>bool\<close> read as a number with \<open>of_bool\<close>, and a packet
  is a list of bits. Exceptions are values: every place where the source indexes a
  list, or unpacks one into a fixed number of names, is a branch that can return the
  exception. Output written with \<^verbatim>\<open>print\<close> (and the whole \<^verbatim>\<open>verbose\<close> report, which only
  prints) is not part of the model; the values that are only printed are still computed,
  because computing them indexes lists.

  Python floats are read as real numbers: the theorems about emitted values say which
  formula the code applies, up to the rounding error of IEEE arithmetic. The one place
  where the floating-point result is not a number at all, the logarithm of zero, is a
  value of its own (\<open>NaN\<close>).
\<close>

datatype py_error = IndexError | ValueError | NameError

datatype pyfloat = Fin real | NaN

datatype pyval = PyFloat pyfloat | PyStr string

type_synonym wxdata = "string \<rightharpoonup> pyval"

definition and_then :: "py_error + 'a \<Rightarrow> ('a \<Rightarrow> py_error + 'b) \<Rightarrow> py_error + 'b" where
  "and_then m f = (case m of Inl e \<Rightarrow> Inl e | Inr v \<Rightarrow> f v)"

text \<open>\<^verbatim>\<open>xs[a:b]\<close> for non-negative bounds: clipped to the list, empty when \<open>b \<le> a\<close>.\<close>

definition py_slice :: "'a list \<Rightarrow> nat \<Rightarrow> nat \<Rightarrow> 'a list" where
  "py_slice xs a b = take (b - a) (drop a xs)"

text \<open>\<^verbatim>\<open>xs[::2]\<close>: every second element, starting with the first.\<close>

fun stride2 :: "'a list \<Rightarrow> 'a list" where
  "stride2 [] = []"
| "stride2 [x] = [x]"
| "stride2 (x # y # xs) = x # stride2 xs"

text \<open>\<^verbatim>\<open>sum(bits)\<close>: the number of bits that are set.\<close>

definition bit_sum :: "bool list \<Rightarrow> nat" where
  "bit_sum bits = sum_list (map of_bool bits)"

text \<open>\<^verbatim>\<open>xs[i]\<close> for a non-negative index: IndexError out of range.\<close>

definition py_index :: "'a list \<Rightarrow> nat \<Rightarrow> py_error + 'a" where
  "py_index xs i = (if i < length xs then Inr (xs ! i) else Inl IndexError)"

text \<open>\<^verbatim>\<open>a, b = xs\<close>: ValueError unless the list has exactly two elements.\<close>

fun unpack2 :: "'a list \<Rightarrow> py_error + ('a \<times> 'a)" where
  "unpack2 [a, b] = Inr (a, b)"
| "unpack2 _ = Inl ValueError"

text \<open>\<^verbatim>\<open>"%x" % i\<close>: lowercase hexadecimal, no padding.\<close>

definition hex_digit :: "nat \<Rightarrow> char" where
  "hex_digit d = ''0123456789abcdef'' ! d"

fun hex :: "nat \<Rightarrow> string" where
  "hex n = (if n < 16 then [hex_digit n] else hex (n div 16) @ [hex_digit (n mod 16)])"

declare hex.simps [simp del]

text \<open>
  \<^verbatim>\<open>round(x, n)\<close> of Python 2: to \<open>n\<close> decimal places, halves away from zero.
\<close>

definition round_half_away :: "real \<Rightarrow> nat \<Rightarrow> real" where
  "round_half_away x n =
     (if 0 \<le> x then of_int \<lfloor>x * 10 ^ n + 1 / 2\<rfloor> / 10 ^ n
      else - (of_int \<lfloor>- x * 10 ^ n + 1 / 2\<rfloor> / 10 ^ n))"

fun py_round :: "pyfloat \<Rightarrow> nat \<Rightarrow> pyfloat" where
  "py_round (Fin x) n = Fin (round_half_away x n)"
| "py_round NaN n = NaN"

section \<open>Nibbles and the checksum\<close>

text \<open>
  \<^verbatim>\<open>nibbles2value\<close> (lines 103-117): \<open>len(nibbles)/4\<close> is integer division in Python 2, and
  every index \<open>4*i+k\<close> with \<open>i < n\<close>, \<open>k \<le> 3\<close> is inside the list.
\<close>

definition nibbles2value :: "bool list \<Rightarrow> nat list" where
  "nibbles2value nibbles =
     (let n = length nibbles div 4
      in map (\<lambda>i. push_bit 3 (of_bool (nibbles ! (4 * i + 3)))
                   OR push_bit 2 (of_bool (nibbles ! (4 * i + 2)))
                   OR push_bit 1 (of_bool (nibbles ! (4 * i + 1)))
                   OR of_bool (nibbles ! (4 * i + 0)))
             [0 ..< n])"

text \<open>\<^verbatim>\<open>checksum\<close> (lines 120-135).\<close>

definition checksum :: "bool list \<Rightarrow> nat" where
  "checksum bits =
     (let values = nibbles2value bits;
          total = sum_list values
      in (total AND 0xFF) + drop_bit 8 total)"

section \<open>The packet decoder\<close>

text \<open>Line 161: the sync nibble, \<^verbatim>\<open>nibbles2value(packet[16:20])[0]\<close>.\<close>

definition sync_nibble :: "bool list \<Rightarrow> py_error + nat" where
  "sync_nibble packet = py_index (nibbles2value (py_slice packet 16 20)) 0"

text \<open>Line 164: the sensor id as a string of hexadecimal digits.\<close>

definition sensor_id :: "bool list \<Rightarrow> string" where
  "sensor_id packet = concat (map hex (nibbles2value (py_slice packet 20 36)))"

text \<open>
  Lines 165-176: the end of the data. The last branch is reached only behind the sync
  test, which has read \<open>packet[16:20]\<close> in full, so \<open>len(packet)-16\<close> is not negative
  there (lemma \<open>sync_nibble_length\<close>).
\<close>

definition data_end :: "string \<Rightarrow> bool list \<Rightarrow> nat" where
  "data_end sensor packet =
     (if sensor = ''5d60'' then 96
      else if sensor = ''2d10'' then 84
      else if sensor = ''3d00'' then 88
      else if sensor = ''1d20'' then 80
      else if sensor = ''1d30'' then 80
      else length packet - 16)"

text \<open>
  Lines 192-196: the computed checksum is split into two nibbles and compared with the
  two nibbles read from the packet. The unpacking of line 195 raises ValueError when the
  packet holds fewer than two nibbles there.
\<close>

definition cs_compare :: "nat \<Rightarrow> nat list \<Rightarrow> py_error + bool" where
  "cs_compare ccs observed =
     (let ccs1 = ccs AND 0xF;
          ccs2 = drop_bit 4 ccs AND 0xF
      in and_then (unpack2 observed) (\<lambda>(ocs1, ocs2). Inr (ocs1 = ccs1 \<and> ocs2 = ccs2)))"

text \<open>\<^verbatim>\<open>10*t[2] + t[1] + 0.1*t[0]\<close>: three nibbles as tens, units and tenths.\<close>

definition bcd3 :: "nat list \<Rightarrow> py_error + real" where
  "bcd3 t =
     and_then (py_index t 2) (\<lambda>t2.
     and_then (py_index t 1) (\<lambda>t1.
     and_then (py_index t 0) (\<lambda>t0.
       Inr (real (10 * t2 + t1) + 0.1 * real t0))))"

text \<open>
  The temperature in Celsius (lines 201-204, 284-287, 299-302, three copies of the same
  code): three nibbles at \<open>[52,64)\<close>, negated when any bit of \<open>[64,68)\<close> is set.
\<close>

definition temperature :: "bool list \<Rightarrow> py_error + real" where
  "temperature packet =
     and_then (bcd3 (nibbles2value (py_slice packet 52 64))) (\<lambda>temp.
       Inr (if bit_sum (py_slice packet 64 68) > 0 then temp * (- 1) else temp))"

text \<open>The relative humidity (lines 208-209, 291-292, 306-307).\<close>

definition humidity :: "bool list \<Rightarrow> py_error + nat" where
  "humidity packet =
     (let humi = nibbles2value (py_slice packet 68 76)
      in and_then (py_index humi 1) (\<lambda>h1.
         and_then (py_index humi 0) (\<lambda>h0.
           Inr (10 * h1 + h0))))"

text \<open>
  Lines 318-323, up to the argument of \<^verbatim>\<open>round\<close>. \<^verbatim>\<open>numpy.log\<close> of zero is minus infinity
  (a warning, no exception); the quotient of line 321 is then minus infinity over
  infinity, not a number, and \<^verbatim>\<open>round\<close> returns it as it is. Neither division divides by
  zero (lemmas \<open>dewpoint_first_divisor\<close> and \<open>dewpoint_second_divisor\<close>).
\<close>

definition dewpoint :: "real \<Rightarrow> nat \<Rightarrow> pyfloat" where
  "dewpoint temp humi =
     (if humi = 0 then NaN
      else
        (let b = 17.67;
             c = 243.5;
             dewpt = ln (real humi / 100.0) + b * temp / (c + temp);
             dewpt = c * dewpt / (b - dewpt)
         in Fin (dewpt * 9.0 / 5.0 + 32)))"

text \<open>
  Lines 199-323: what each sensor's branch assigns to \<^verbatim>\<open>wxData\<close>, in the order of the
  assignments. In every branch all list indexing comes before the first assignment, so
  an exception leaves the dictionary as it was.
\<close>

definition fields_5d60 :: "bool list \<Rightarrow> py_error + (string \<times> pyval) list" where
  "fields_5d60 packet =
     and_then (temperature packet) (\<lambda>temp.
     and_then (humidity packet) (\<lambda>humi.
     and_then (py_index (nibbles2value (py_slice packet 76 80)) 0) (\<lambda>comf.
     and_then (let baro = nibbles2value (py_slice packet 80 88)
               in and_then (py_index baro 1) (\<lambda>b1.
                  and_then (py_index baro 0) (\<lambda>b0. Inr (10 * b1 + b0 + 856)))) (\<lambda>baro.
     and_then (py_index (nibbles2value (py_slice packet 92 96)) 0) (\<lambda>fore.
       Inr [(''indoortempf'', PyFloat (py_round (Fin (temp * 9.0 / 5.0 + 32)) 2)),
            (''indoorhumidity'', PyFloat (py_round (Fin (real humi)) 0)),
            (''baromin'', PyFloat (py_round (Fin (real baro / 33.8638866667)) 2))])))))"

definition fields_2d10 :: "bool list \<Rightarrow> py_error + (string \<times> pyval) list" where
  "fields_2d10 packet =
     and_then (bcd3 (nibbles2value (py_slice packet 52 64))) (\<lambda>rrate.
     and_then (let r = nibbles2value (py_slice packet 64 84)
               in and_then (py_index r 4) (\<lambda>r4.
                  and_then (py_index r 3) (\<lambda>r3.
                  and_then (py_index r 2) (\<lambda>r2.
                  and_then (py_index r 1) (\<lambda>r1.
                  and_then (py_index r 0) (\<lambda>r0.
                    Inr (1000 * r4 + 100 * r3 + 10 * r2 + r1 + r0))))))) (\<lambda>rtotl.
       Inr [(''dailyrainin'', PyFloat (py_round (Fin (real rtotl / 25.4)) 2))]))"

definition fields_3d00 :: "bool list \<Rightarrow> py_error + (string \<times> pyval) list" where
  "fields_3d00 packet =
     and_then (let w = nibbles2value (py_slice packet 52 64)
               in and_then (py_index w 2) (\<lambda>w2.
                  and_then (py_index w 1) (\<lambda>w1.
                  and_then (py_index w 0) (\<lambda>w0.
                    Inr (100 * w2 + 10 * w1 + w0))))) (\<lambda>wdir.
     and_then (bcd3 (nibbles2value (py_slice packet 64 76))) (\<lambda>gspd.
     and_then (bcd3 (nibbles2value (py_slice packet 76 88))) (\<lambda>aspd.
       Inr [(''windspeedmph'', PyFloat (py_round (Fin (aspd * 2.23694)) 2)),
            (''windgustmph'', PyFloat (py_round (Fin (gspd * 2.23694)) 2)),
            (''winddir'', PyFloat (py_round (Fin (real wdir)) 0))])))"

definition fields_1d20 :: "bool list \<Rightarrow> py_error + (string \<times> pyval) list" where
  "fields_1d20 packet =
     and_then (temperature packet) (\<lambda>temp.
     and_then (humidity packet) (\<lambda>humi.
       Inr [(''temp2f'', PyFloat (py_round (Fin (temp * 9.0 / 5.0 + 32)) 2))]))"

definition fields_1d30 :: "bool list \<Rightarrow> py_error + (string \<times> pyval) list" where
  "fields_1d30 packet =
     and_then (temperature packet) (\<lambda>temp.
     and_then (humidity packet) (\<lambda>humi.
     and_then (py_index (nibbles2value (py_slice packet 76 80)) 0) (\<lambda>batr.
       Inr [(''tempf'', PyFloat (py_round (Fin (temp * 9.0 / 5.0 + 32)) 2)),
            (''humidity'', PyFloat (py_round (Fin (real humi)) 0)),
            (''dewptf'', PyFloat (py_round (dewpoint temp humi) 2))])))"

text \<open>The \<^verbatim>\<open>if\<close>/\<^verbatim>\<open>elif\<close> chain of lines 199-297; it has no \<^verbatim>\<open>else\<close>.\<close>

definition sensor_fields :: "string \<Rightarrow> bool list \<Rightarrow> py_error + (string \<times> pyval) list" where
  "sensor_fields sensor packet =
     (if sensor = ''5d60'' then fields_5d60 packet
      else if sensor = ''2d10'' then fields_2d10 packet
      else if sensor = ''3d00'' then fields_3d00 packet
      else if sensor = ''1d20'' then fields_1d20 packet
      else if sensor = ''1d30'' then fields_1d30 packet
      else Inr [])"

text \<open>\<^verbatim>\<open>wxData[k] = v\<close>, one assignment after the other.\<close>

definition store :: "wxdata \<Rightarrow> (string \<times> pyval) list \<Rightarrow> wxdata" where
  "store wxData ws = foldl (\<lambda>m (k, v). m(k \<mapsto> v)) wxData ws"

text \<open>
  \<^verbatim>\<open>decodePacketv21\<close> (lines 138-333). The default \<^verbatim>\<open>wxData=None\<close> is the argument \<open>None\<close>,
  for which lines 156-157 take a new, empty dictionary.
  The result is the dictionary and the size \<open>(ds + 16) * 2\<close> of lines 329-330.
\<close>

definition accumulator :: "wxdata option \<Rightarrow> wxdata" where
  "accumulator wxData = (case wxData of None \<Rightarrow> Map.empty | Some m \<Rightarrow> m)"

definition decodePacketv21 :: "bool list \<Rightarrow> wxdata option \<Rightarrow> py_error + (wxdata \<times> nat)" where
  "decodePacketv21 packet wxData0 =
     (let wxData = accumulator wxData0
      in and_then (sync_nibble packet) (\<lambda>sync.
           if sync = 10 then
             (let sensor = sensor_id packet;
                  ds = data_end sensor packet;
                  ccs = checksum (py_slice packet 20 ds)
              in and_then (cs_compare ccs (nibbles2value (py_slice packet ds (ds + 8)))) (\<lambda>valid.
                   if valid then
                     and_then (sensor_fields sensor packet) (\<lambda>ws.
                       Inr (store wxData ws, (ds + 16) * 2))
                   else Inr (wxData, (ds + 16) * 2)))
           else
             (let ds = 0 in Inr (wxData, (ds + 16) * 2))))"

section \<open>The scan loop\<close>

text \<open>
  Lines 388-401 of \<^verbatim>\<open>main\<close>. The loop calls a function named \<^verbatim>\<open>decodePacket\<close>, a name the
  module neither defines nor imports; the decoder is therefore an argument of the model.
  Only IndexError is caught. \<open>i < len(bits)-32\<close> is a comparison of integers.
\<close>

function scan :: "(bool list \<Rightarrow> wxdata option \<Rightarrow> py_error + (wxdata \<times> nat)) \<Rightarrow> bool list \<Rightarrow> nat \<Rightarrow> wxdata
    \<Rightarrow> py_error + wxdata" where
  "scan decodePacket bits i wxData =
     (if int i < int (length bits) - 32 then
        if bit_sum (stride2 (py_slice bits i (i + 32))) = 16
           \<and> bit_sum (stride2 (py_slice bits (i + 1) (i + 1 + 32))) = 0
        then
          (let packet = stride2 (drop i bits)
           in case decodePacket packet (Some wxData) of
                Inr (wxData', ps) \<Rightarrow> scan decodePacket bits (i + 1) wxData'
              | Inl IndexError \<Rightarrow> scan decodePacket bits (i + 1) wxData
              | Inl e \<Rightarrow> Inl e)
        else scan decodePacket bits (i + 1) wxData
      else Inr wxData)"
  by pat_completeness auto
termination
  by (relation "measure (\<lambda>(d, bits, i, w). length bits - i)") auto

declare scan.simps [simp del]

section \<open>Notions the properties are stated with\<close>

text \<open>
  The comparison of line 196 for a packet, with the sensor and the data end the decoder
  derives from it.
\<close>

definition checksum_valid :: "bool list \<Rightarrow> py_error + bool" where
  "checksum_valid packet =
     (let sensor = sensor_id packet;
          ds = data_end sensor packet;
          ccs = checksum (py_slice packet 20 ds)
      in cs_compare ccs (nibbles2value (py_slice packet ds (ds + 8))))"

text \<open>The keys each branch of lines 199-323 assigns.\<close>

definition emitted_fields :: "string \<Rightarrow> string list" where
  "emitted_fields sensor =
     (if sensor = ''5d60'' then [''indoortempf'', ''indoorhumidity'', ''baromin'']
      else if sensor = ''2d10'' then [''dailyrainin'']
      else if sensor = ''3d00'' then [''windspeedmph'', ''windgustmph'', ''winddir'']
      else if sensor = ''1d20'' then [''temp2f'']
      else if sensor = ''1d30'' then [''tempf'', ''humidity'', ''dewptf'']
      else [])"

text \<open>The five sensor ids of the table.\<close>

definition known_sensors :: "string list" where
  "known_sensors = [''5d60'', ''2d10'', ''3d00'', ''1d20'', ''1d30'']"

text \<open>
  The specification's words for the checksum: each group of four bits is the number it
  spells with the least significant bit first, the numbers are added, and what exceeds
  the low byte is added back; the low nibble and the high nibble of the result are the
  two check nibbles.
\<close>

fun nibble_values_spec :: "bool list \<Rightarrow> nat list" where
  "nibble_values_spec (b0 # b1 # b2 # b3 # rest) =
     (of_bool b0 + 2 * of_bool b1 + 4 * of_bool b2 + 8 * of_bool b3) # nibble_values_spec rest"
| "nibble_values_spec _ = []"

definition checksum_spec :: "bool list \<Rightarrow> nat" where
  "checksum_spec bits =
     (let s = sum_list (nibble_values_spec bits) in s mod 256 + s div 256)"

definition low_nibble_spec :: "nat \<Rightarrow> nat" where
  "low_nibble_spec v = v mod 16"

definition high_nibble_spec :: "nat \<Rightarrow> nat" where
  "high_nibble_spec v = (v div 16) mod 16"

text \<open>
  The specification's words for the dew point: the Magnus-Tetens approximation in
  Celsius, and the conversion to Fahrenheit.
\<close>

definition magnus_tetens_spec :: "real \<Rightarrow> real \<Rightarrow> real" where
  "magnus_tetens_spec tempC humidity_pct =
     (let b = 17.67;
          c = 243.5;
          gamma = ln (humidity_pct / 100) + b * tempC / (c + tempC)
      in c * gamma / (b - gamma))"

definition fahrenheit_spec :: "real \<Rightarrow> real" where
  "fahrenheit_spec t = t * 9 / 5 + 32"

text \<open>The number of decimal places a field is rounded to, as the specification lists them.\<close>

definition places_spec :: "string \<Rightarrow> nat" where
  "places_spec k =
     (if k = ''humidity'' \<or> k = ''indoorhumidity'' \<or> k = ''winddir'' then 0 else 2)"

text \<open>
  A number with at most \<open>n\<close> decimal places: a whole multiple of \<open>10\<^sup>-\<^sup>n\<close>.
\<close>

definition has_places :: "real \<Rightarrow> nat \<Rightarrow> bool" where
  "has_places x n = (of_int \<lfloor>x * 10 ^ n\<rfloor> = x * 10 ^ n)"

text \<open>
  An assignment whose value is rounded as the specification lists it for the key: a
  number with that many decimal places. The only value that is not a number is the dew
  point of a packet whose humidity is 0.
\<close>

definition rounded_value :: "bool list \<Rightarrow> string \<times> pyval \<Rightarrow> bool" where
  "rounded_value packet kv =
     (case snd kv of
        PyFloat (Fin x) \<Rightarrow> has_places x (places_spec (fst kv))
      | PyFloat NaN \<Rightarrow> fst kv = ''dewptf'' \<and> humidity packet = Inr 0
      | PyStr s \<Rightarrow> False)"

section \<open>Example packets\<close>

text \<open>A nibble as the transmitter sends it: four bits, least significant first.\<close>

definition nibble_bits :: "nat \<Rightarrow> bool list" where
  "nibble_bits n = [odd n, odd (n div 2), odd (n div 4), odd (n div 8)]"

definition packet_of :: "nat list \<Rightarrow> bool list" where
  "packet_of ns = concat (map nibble_bits ns)"

text \<open>
  A THGR968 packet (sensor 1d30): preamble, sync, sensor id, channel, rolling code and
  flags zero, 21.5 degrees, sign clear, 45 percent, battery nibble zero, the checksum
  0x22 of the nibbles from the sensor id to the battery nibble, and a postamble.
\<close>

definition pkt_1d30 :: "bool list" where
  "pkt_1d30 = packet_of [15, 15, 15, 15, 10, 1, 13, 3, 0, 0, 0, 0, 0, 5, 1, 2, 0, 5, 4, 0,
                         2, 2, 0, 0]"

text \<open>What the decoder assigns for that packet: 70.7 degrees Fahrenheit, 45 percent.\<close>

definition writes_1d30 :: "(string \<times> pyval) list" where
  "writes_1d30 =
     [(''tempf'', PyFloat (Fin 70.7)),
      (''humidity'', PyFloat (Fin 45)),
      (''dewptf'', PyFloat (py_round (dewpoint 21.5 45) 2))]"

text \<open>A dictionary as \<^verbatim>\<open>main\<close> passes it, with the time stamp and an earlier reading.\<close>

definition wx_before :: wxdata where
  "wx_before = [''dateutc'' \<mapsto> PyStr ''2014-01-01 00:00:00'', ''tempf'' \<mapsto> PyFloat (Fin 50)]"

text \<open>The same packet with a wrong first check nibble.\<close>

definition pkt_1d30_bad :: "bool list" where
  "pkt_1d30_bad = packet_of [15, 15, 15, 15, 10, 1, 13, 3, 0, 0, 0, 0, 0, 5, 1, 2, 0, 5, 4, 0,
                             3, 2, 0, 0]"

text \<open>The same packet cut off behind the sensor id.\<close>

definition pkt_1d30_short :: "bool list" where
  "pkt_1d30_short = packet_of [15, 15, 15, 15, 10, 1, 13, 3, 0]"

text \<open>
  A packet of a sensor the table does not have (id 1a2d), 80 bits long, so that the data
  end is 64; the check nibbles 10 and 1 are those of the nibbles at \<open>[20,64)\<close>, which
  add up to 0x1a.
\<close>

definition pkt_unknown :: "bool list" where
  "pkt_unknown = packet_of [15, 15, 15, 15, 10, 1, 10, 2, 13, 0, 0, 0, 0, 0, 0, 0,
                            10, 1, 0, 0]"

text \<open>A packet whose sync nibble is 5.\<close>

definition pkt_nosync :: "bool list" where
  "pkt_nosync = packet_of [15, 15, 15, 15, 5, 1, 13, 3, 0]"

text \<open>
  A packet of the unknown sensor ffff whose nibbles from the sensor id to the end of the
  data add up to 0x1FF, with the check nibbles 0 and 0.
\<close>

definition pkt_carry :: "bool list" where
  "pkt_carry = packet_of ([15, 15, 15, 15, 10] @ replicate 34 15 @ [1, 0, 0, 0, 0])"

text \<open>Each logical bit doubled as on the air: the bit, then its complement.\<close>

definition doubled :: "bool list \<Rightarrow> bool list" where
  "doubled bits = concat (map (\<lambda>b. [b, \<not> b]) bits)"

text \<open>Thirty-four nibbles 0xF and one nibble 1: they add up to 0x1FF.\<close>

definition bits_1ff :: "bool list" where
  "bits_1ff = packet_of (replicate 34 15 @ [1])"

section \<open>Sequences, nibbles and the error monad\<close>

lemma and_then_Inl [simp]: "and_then (Inl e) f = Inl e"
  by (simp add: and_then_def)

lemma and_then_Inr [simp]: "and_then (Inr v) f = f v"
  by (simp add: and_then_def)

lemma and_then_eq_Inr:
  "and_then m f = Inr r \<longleftrightarrow> (\<exists>v. m = Inr v \<and> f v = Inr r)"
  by (cases m) simp_all

lemma py_index_in_range: "i < length xs \<Longrightarrow> py_index xs i = Inr (xs ! i)"
  by (simp add: py_index_def)

lemma py_index_eq_Inr: "py_index xs i = Inr v \<longleftrightarrow> i < length xs \<and> v = xs ! i"
  by (auto simp: py_index_def)

lemma unpack2_eq_Inr: "unpack2 xs = Inr (a, b) \<longleftrightarrow> xs = [a, b]"
  by (cases xs rule: unpack2.cases) auto

lemma length_py_slice: "length (py_slice xs a b) = min (b - a) (length xs - a)"
  by (simp add: py_slice_def)

lemma nibbles2value_Cons4:
  "nibbles2value (b0 # b1 # b2 # b3 # rest) =
     (push_bit 3 (of_bool b3) OR push_bit 2 (of_bool b2) OR push_bit 1 (of_bool b1) OR of_bool b0)
       # nibbles2value rest"
proof -
  let ?xs = "b0 # b1 # b2 # b3 # rest"
  have n: "length ?xs div 4 = Suc (length rest div 4)"
    by simp
  have upt: "[0 ..< Suc (length rest div 4)] = 0 # map Suc [0 ..< length rest div 4]"
    by (simp add: upt_conv_Cons map_Suc_upt del: upt_Suc)
  have shift: "?xs ! (4 * Suc i + k) = rest ! (4 * i + k)" for i k
  proof -
    have "4 * Suc i + k = Suc (Suc (Suc (Suc (4 * i + k))))"
      by simp
    then show ?thesis
      by (simp only: nth_Cons_Suc)
  qed
  have head: "?xs ! (4 * 0 + 3) = b3" "?xs ! (4 * 0 + 2) = b2" "?xs ! (4 * 0 + 1) = b1"
    "?xs ! (4 * 0 + 0) = b0"
    by (simp_all add: numeral_3_eq_3 numeral_2_eq_2)
  show ?thesis
    by (simp only: nibbles2value_def Let_def n upt list.map map_map comp_def shift head)
qed

lemma nibbles2value_short: "length xs < 4 \<Longrightarrow> nibbles2value xs = []"
  by (simp add: nibbles2value_def)

lemma length_nibbles2value: "length (nibbles2value xs) = length xs div 4"
  by (simp add: nibbles2value_def)

lemma nibble_value_arith:
  "push_bit 3 (of_bool b3) OR push_bit 2 (of_bool b2) OR push_bit 1 (of_bool b1) OR of_bool b0
     = (of_bool b0 + 2 * of_bool b1 + 4 * of_bool b2 + 8 * of_bool b3 :: nat)"
  by (cases b0; cases b1; cases b2; cases b3) simp_all

lemma nibbles2value_spec: "nibbles2value bits = nibble_values_spec bits"
proof (induction bits rule: nibble_values_spec.induct)
  case (1 b0 b1 b2 b3 rest)
  then show ?case
    by (simp only: nibbles2value_Cons4 nibble_value_arith nibble_values_spec.simps)
qed (simp_all add: nibbles2value_short)

lemma low_byte: "s AND 0xFF = s mod 256" for s :: nat
proof -
  have "s AND mask 8 = s mod 2 ^ 8"
    by (simp only: take_bit_eq_mod flip: take_bit_eq_mask)
  then show ?thesis by (simp add: mask_eq_exp_minus_1)
qed

lemma low_nibble: "s AND 0xF = s mod 16" for s :: nat
proof -
  have "s AND mask 4 = s mod 2 ^ 4"
    by (simp only: take_bit_eq_mod flip: take_bit_eq_mask)
  then show ?thesis by (simp add: mask_eq_exp_minus_1)
qed

lemma checksum_arith: "checksum bits = checksum_spec bits"
  by (simp add: checksum_def checksum_spec_def Let_def nibbles2value_spec low_byte
      drop_bit_eq_div)

lemma round_half_away_nat [simp]: "round_half_away (real n) 0 = real n"
proof -
  have "\<lfloor>real n + 1 / 2\<rfloor> = int n"
    by (simp add: floor_eq_iff)
  then show ?thesis
    by (simp add: round_half_away_def)
qed

section \<open>The decoder reads inside the packet\<close>

lemma nibbles_in_slice:
  "b \<le> length p \<Longrightarrow> length (nibbles2value (py_slice p a b)) = (b - a) div 4"
  by (simp add: length_nibbles2value length_py_slice min_def)

lemma cs_compare_eq_Inr:
  "cs_compare ccs obs = Inr v \<longleftrightarrow>
     (\<exists>ocs1 ocs2. obs = [ocs1, ocs2] \<and> v = (ocs1 = ccs AND 0xF \<and> ocs2 = drop_bit 4 ccs AND 0xF))"
  by (auto simp: cs_compare_def Let_def and_then_eq_Inr unpack2_eq_Inr)

lemma observed_length:
  assumes "nibbles2value (py_slice p ds (ds + 8)) = [ocs1, ocs2]"
  shows "ds + 8 \<le> length p"
proof -
  have "length (py_slice p ds (ds + 8)) div 4 = 2"
    using assms length_nibbles2value [of "py_slice p ds (ds + 8)"] by simp
  then have "8 \<le> min 8 (length p - ds)"
    by (simp add: length_py_slice)
  then show ?thesis by simp
qed

lemma sync_nibble_length: "sync_nibble p = Inr s \<Longrightarrow> 20 \<le> length p"
proof -
  assume "sync_nibble p = Inr s"
  then have "0 < length (py_slice p 16 20) div 4"
    by (simp add: sync_nibble_def py_index_eq_Inr length_nibbles2value)
  then show ?thesis
    by (simp add: length_py_slice)
qed

lemma bcd3_total:
  assumes "3 \<le> length t"
  shows "bcd3 t = Inr (real (10 * t ! 2 + t ! 1) + 0.1 * real (t ! 0))"
proof -
  have "0 < length t" "1 < length t" "2 < length t"
    using assms by arith+
  then show ?thesis
    by (simp add: bcd3_def py_index_in_range)
qed

lemma temperature_total:
  "64 \<le> length p \<Longrightarrow> \<exists>t. temperature p = Inr t"
  by (simp add: temperature_def bcd3_total nibbles_in_slice)

lemma humidity_total:
  "76 \<le> length p \<Longrightarrow> \<exists>h. humidity p = Inr h"
  by (simp add: humidity_def Let_def py_index_in_range nibbles_in_slice)

lemma fields_5d60_total: "104 \<le> length p \<Longrightarrow> \<exists>ws. fields_5d60 p = Inr ws"
  using temperature_total [of p] humidity_total [of p]
  by (auto simp: fields_5d60_def Let_def py_index_in_range nibbles_in_slice)

lemma fields_2d10_total: "92 \<le> length p \<Longrightarrow> \<exists>ws. fields_2d10 p = Inr ws"
  by (simp add: fields_2d10_def Let_def bcd3_total py_index_in_range nibbles_in_slice)

lemma fields_3d00_total: "96 \<le> length p \<Longrightarrow> \<exists>ws. fields_3d00 p = Inr ws"
  by (simp add: fields_3d00_def Let_def bcd3_total py_index_in_range nibbles_in_slice)

lemma fields_1d20_total: "88 \<le> length p \<Longrightarrow> \<exists>ws. fields_1d20 p = Inr ws"
  using temperature_total [of p] humidity_total [of p]
  by (auto simp: fields_1d20_def)

lemma fields_1d30_total: "88 \<le> length p \<Longrightarrow> \<exists>ws. fields_1d30 p = Inr ws"
  using temperature_total [of p] humidity_total [of p]
  by (auto simp: fields_1d30_def py_index_in_range nibbles_in_slice)

lemma sensor_cases:
  obtains "sensor = ''5d60''" | "sensor = ''2d10''" | "sensor = ''3d00''"
    | "sensor = ''1d20''" | "sensor = ''1d30''" | "sensor \<notin> set known_sensors"
  unfolding known_sensors_def by auto

lemma data_end_known [simp]:
  "data_end ''5d60'' p = 96" "data_end ''2d10'' p = 84" "data_end ''3d00'' p = 88"
  "data_end ''1d20'' p = 80" "data_end ''1d30'' p = 80"
  by (simp_all add: data_end_def)

lemma data_end_unknown: "sensor \<notin> set known_sensors \<Longrightarrow> data_end sensor p = length p - 16"
  by (simp add: data_end_def known_sensors_def)

lemma sensor_fields_known [simp]:
  "sensor_fields ''5d60'' p = fields_5d60 p" "sensor_fields ''2d10'' p = fields_2d10 p"
  "sensor_fields ''3d00'' p = fields_3d00 p" "sensor_fields ''1d20'' p = fields_1d20 p"
  "sensor_fields ''1d30'' p = fields_1d30 p"
  by (simp_all add: sensor_fields_def)

lemma sensor_fields_unknown: "sensor \<notin> set known_sensors \<Longrightarrow> sensor_fields sensor p = Inr []"
  by (simp add: sensor_fields_def known_sensors_def)

lemma sensor_fields_total:
  assumes "data_end sensor p + 8 \<le> length p"
  shows "\<exists>ws. sensor_fields sensor p = Inr ws"
proof (cases sensor rule: sensor_cases)
  case 1
  with assms show ?thesis using fields_5d60_total [of p] by simp
next
  case 2
  with assms show ?thesis using fields_2d10_total [of p] by simp
next
  case 3
  with assms show ?thesis using fields_3d00_total [of p] by simp
next
  case 4
  with assms show ?thesis using fields_1d20_total [of p] by simp
next
  case 5
  with assms show ?thesis using fields_1d30_total [of p] by simp
next
  case 6
  then show ?thesis by (simp add: sensor_fields_unknown)
qed

section \<open>Assignments to the dictionary\<close>

lemma store_Nil [simp]: "store m [] = m"
  by (simp add: store_def)

lemma store_Cons [simp]: "store m ((k, v) # ws) = store (m(k \<mapsto> v)) ws"
  by (simp add: store_def)

lemma store_map_add: "store m ws = m ++ map_of (rev ws)"
proof (induction ws arbitrary: m)
  case Nil
  show ?case by simp
next
  case (Cons kv ws)
  obtain k v where kv: "kv = (k, v)" by (cases kv)
  have "store m (kv # ws) = store (m(k \<mapsto> v)) ws"
    by (simp add: kv)
  also have "\<dots> = m(k \<mapsto> v) ++ map_of (rev ws)"
    by (rule Cons.IH)
  also have "\<dots> = m ++ map_of (rev (kv # ws))"
    by (rule ext) (simp add: kv map_add_def split: option.splits)
  finally show ?case .
qed

lemma store_idem: "store (store m ws) ws = store m ws"
  by (rule ext) (simp add: store_map_add map_add_def split: option.splits)

lemma store_outside: "k \<notin> fst ` set ws \<Longrightarrow> store m ws k = m k"
  by (induction ws arbitrary: m) auto

lemma dom_store: "dom (store m ws) = dom m \<union> fst ` set ws"
proof (induction ws arbitrary: m)
  case Nil
  show ?case by simp
next
  case (Cons kv ws)
  obtain k v where kv: "kv = (k, v)" by (cases kv)
  have "dom (store m (kv # ws)) = dom (m(k \<mapsto> v)) \<union> fst ` set ws"
    by (simp only: kv store_Cons Cons.IH)
  then show ?case
    by (simp add: kv insert_commute Un_commute)
qed

section \<open>What a call of the decoder returns\<close>

lemma decode_nosync:
  assumes "sync_nibble p = Inr s" and "s \<noteq> 10"
  shows "decodePacketv21 p w = Inr (accumulator w, 32)"
  using assms by (simp add: decodePacketv21_def Let_def)

lemma decode_sync:
  assumes "sync_nibble p = Inr 10"
  shows "decodePacketv21 p w =
           and_then (checksum_valid p) (\<lambda>valid.
             if valid then
               and_then (sensor_fields (sensor_id p) p) (\<lambda>ws.
                 Inr (store (accumulator w) ws, (data_end (sensor_id p) p + 16) * 2))
             else Inr (accumulator w, (data_end (sensor_id p) p + 16) * 2))"
  using assms by (simp add: decodePacketv21_def checksum_valid_def Let_def)

lemma checksum_valid_length:
  assumes "checksum_valid p = Inr v"
  shows "data_end (sensor_id p) p + 8 \<le> length p"
proof -
  from assms obtain ocs1 ocs2
    where "nibbles2value (py_slice p (data_end (sensor_id p) p) (data_end (sensor_id p) p + 8))
             = [ocs1, ocs2]"
    by (auto simp: checksum_valid_def Let_def cs_compare_eq_Inr)
  then show ?thesis by (rule observed_length)
qed

lemma decode_valid:
  assumes "sync_nibble p = Inr 10" and "checksum_valid p = Inr True"
  shows "\<exists>ws. sensor_fields (sensor_id p) p = Inr ws
           \<and> decodePacketv21 p w
               = Inr (store (accumulator w) ws, (data_end (sensor_id p) p + 16) * 2)"
proof -
  from assms(2) have "data_end (sensor_id p) p + 8 \<le> length p"
    by (rule checksum_valid_length)
  then obtain ws where "sensor_fields (sensor_id p) p = Inr ws"
    using sensor_fields_total by blast
  then show ?thesis
    using assms by (simp add: decode_sync)
qed

lemma decode_invalid:
  assumes "sync_nibble p = Inr 10" and "checksum_valid p = Inr False"
  shows "decodePacketv21 p w = Inr (accumulator w, (data_end (sensor_id p) p + 16) * 2)"
  using assms by (simp add: decode_sync)

lemma decode_Inr_cases:
  assumes "decodePacketv21 p w = Inr (m, n)"
  obtains (unchanged) "m = accumulator w" "checksum_valid p \<noteq> Inr True \<or> sync_nibble p \<noteq> Inr 10"
  | (stored) ws where "sync_nibble p = Inr 10" "checksum_valid p = Inr True"
      "sensor_fields (sensor_id p) p = Inr ws" "m = store (accumulator w) ws"
proof -
  from assms obtain s where s: "sync_nibble p = Inr s"
    by (auto simp: decodePacketv21_def Let_def and_then_eq_Inr)
  show ?thesis
  proof (cases "s = 10")
    case False
    with s assms have "m = accumulator w"
      by (simp add: decode_nosync)
    with s False show ?thesis
      by (intro unchanged) simp_all
  next
    case True
    with s have sync: "sync_nibble p = Inr 10" by simp
    from assms obtain v where v: "checksum_valid p = Inr v"
      by (auto simp: decode_sync [OF sync] and_then_eq_Inr)
    show ?thesis
    proof (cases v)
      case False
      with sync v assms have "m = accumulator w"
        by (simp add: decode_invalid)
      with v False show ?thesis
        by (intro unchanged) simp_all
    next
      case True
      with v have valid: "checksum_valid p = Inr True" by simp
      from decode_valid [OF sync valid, of w] assms obtain ws
        where "sensor_fields (sensor_id p) p = Inr ws" "m = store (accumulator w) ws"
        by auto
      with sync valid show ?thesis
        by (intro stored)
    qed
  qed
qed

section \<open>The assignments of a call\<close>

lemma decode_writes:
  assumes "decodePacketv21 p w = Inr (m, n)"
  obtains ws where "\<And>w'. decodePacketv21 p w' = Inr (store (accumulator w') ws, n)"
    and "ws = [] \<or> sensor_fields (sensor_id p) p = Inr ws"
proof -
  from assms obtain s where s: "sync_nibble p = Inr s"
    by (auto simp: decodePacketv21_def Let_def and_then_eq_Inr)
  show ?thesis
  proof (cases "s = 10")
    case False
    with s assms have "decodePacketv21 p w' = Inr (store (accumulator w') [], n)" for w'
      by (simp add: decode_nosync)
    then show ?thesis by (rule that) simp
  next
    case True
    with s have sync: "sync_nibble p = Inr 10" by simp
    from assms obtain v where v: "checksum_valid p = Inr v"
      by (auto simp: decode_sync [OF sync] and_then_eq_Inr)
    show ?thesis
    proof (cases v)
      case False
      with sync v assms have "decodePacketv21 p w' = Inr (store (accumulator w') [], n)" for w'
        by (simp add: decode_invalid)
      then show ?thesis by (rule that) simp
    next
      case True
      with v have valid: "checksum_valid p = Inr True" by simp
      from decode_valid [OF sync valid, of w] assms obtain ws
        where ws: "sensor_fields (sensor_id p) p = Inr ws"
          and n: "n = (data_end (sensor_id p) p + 16) * 2"
        by auto
      have all: "decodePacketv21 p w' = Inr (store (accumulator w') ws, n)" for w'
        using decode_valid [OF sync valid, of w'] ws n by simp
      show ?thesis
        by (rule that [of ws]) (simp_all add: all ws)
    qed
  qed
qed

lemma sensor_fields_keys:
  assumes "sensor_fields sensor p = Inr ws"
  shows "map fst ws = emitted_fields sensor"
proof (cases sensor rule: sensor_cases)
  case 1
  with assms show ?thesis
    by (auto simp: fields_5d60_def emitted_fields_def and_then_eq_Inr)
next
  case 2
  with assms show ?thesis
    by (auto simp: fields_2d10_def emitted_fields_def and_then_eq_Inr)
next
  case 3
  with assms show ?thesis
    by (auto simp: fields_3d00_def emitted_fields_def and_then_eq_Inr)
next
  case 4
  with assms show ?thesis
    by (auto simp: fields_1d20_def emitted_fields_def and_then_eq_Inr)
next
  case 5
  with assms show ?thesis
    by (auto simp: fields_1d30_def emitted_fields_def and_then_eq_Inr)
next
  case 6
  with assms show ?thesis
    by (simp add: sensor_fields_unknown emitted_fields_def known_sensors_def)
qed

lemma has_places_iff: "has_places x n \<longleftrightarrow> (\<exists>j :: int. x = of_int j / 10 ^ n)"
proof
  assume "has_places x n"
  then have "of_int \<lfloor>x * 10 ^ n\<rfloor> / 10 ^ n = x * 10 ^ n / 10 ^ n"
    by (simp only: has_places_def)
  then have "x = of_int \<lfloor>x * 10 ^ n\<rfloor> / 10 ^ n"
    by simp
  then show "\<exists>j :: int. x = of_int j / 10 ^ n" ..
next
  assume "\<exists>j :: int. x = of_int j / 10 ^ n"
  then obtain j :: int where "x = of_int j / 10 ^ n" ..
  then show "has_places x n"
    by (simp add: has_places_def)
qed


lemma rounded_value_Fin:
  "has_places x (places_spec k) \<Longrightarrow> rounded_value p (k, PyFloat (Fin x))"
  by (simp add: rounded_value_def)




lemma decode_writes_ex:
  assumes "decodePacketv21 p w = Inr (m, n)"
  shows "\<exists>ws. (\<forall>w'. decodePacketv21 p w' = Inr (store (accumulator w') ws, n))
           \<and> (ws = [] \<or> sensor_fields (sensor_id p) p = Inr ws)"
  using assms by (rule decode_writes) blast

section \<open>The check nibbles\<close>

lemma high_nibble: "drop_bit 4 s AND 0xF = (s div 16) mod 16" for s :: nat
  by (simp add: low_nibble drop_bit_eq_div)

lemma cs_compare_arith:
  "cs_compare ccs [ocs1, ocs2]
     = Inr (ocs1 = low_nibble_spec ccs \<and> ocs2 = high_nibble_spec ccs)"
  by (simp add: cs_compare_def Let_def low_nibble drop_bit_eq_div low_nibble_spec_def
      high_nibble_spec_def)

lemma cs_compare_mod_256: "cs_compare (ccs mod 256) observed = cs_compare ccs observed"
proof -
  have "ccs mod 256 mod 16 = ccs mod 16"
    by (simp add: mod_mod_cancel)
  moreover have "ccs mod 256 div 16 mod 16 = ccs div 16 mod 16"
  proof -
    have "ccs mod 256 = 16 * (ccs div 16 mod 16) + ccs mod 16"
      using mod_mult2_eq [of ccs 16 16] by simp
    then have "ccs mod 256 div 16 = ccs div 16 mod 16"
      by simp
    then show ?thesis by simp
  qed
  ultimately show ?thesis
    by (simp add: cs_compare_def Let_def low_nibble drop_bit_eq_div)
qed

section \<open>The ranges of the decoded values and the dew point\<close>

lemma nibble_values_spec_le: "v \<in> set (nibble_values_spec bits) \<Longrightarrow> v \<le> 15"
proof (induction bits rule: nibble_values_spec.induct)
  case (1 b0 b1 b2 b3 rest)
  have "of_bool b0 + 2 * of_bool b1 + 4 * of_bool b2 + 8 * of_bool b3 \<le> (15 :: nat)"
    by (simp add: of_bool_def)
  with 1 show ?case by auto
qed simp_all

lemma nibble_le_15: "i < length (nibbles2value bits) \<Longrightarrow> nibbles2value bits ! i \<le> 15"
  using nibble_values_spec_le [of "nibbles2value bits ! i" bits]
  by (simp add: nibbles2value_spec)

lemma temperature_bound:
  assumes "temperature p = Inr t"
  shows "\<bar>t\<bar> \<le> 166.5"
proof -
  let ?n = "nibbles2value (py_slice p 52 64)"
  from assms obtain x where x: "bcd3 ?n = Inr x" and t: "t = x \<or> t = - x"
    by (auto simp: temperature_def and_then_eq_Inr split: if_splits)
  from x have len: "2 < length ?n" "1 < length ?n" "0 < length ?n"
    and xv: "x = real (10 * ?n ! 2 + ?n ! 1) + 0.1 * real (?n ! 0)"
    by (auto simp: bcd3_def and_then_eq_Inr py_index_eq_Inr)
  from len have "?n ! 2 \<le> 15" "?n ! 1 \<le> 15" "?n ! 0 \<le> 15"
    by (simp_all add: nibble_le_15)
  then have "real (?n ! 2) \<le> 15" "real (?n ! 1) \<le> 15" "real (?n ! 0) \<le> 15"
    by simp_all
  then have "0 \<le> x \<and> x \<le> 166.5"
    unfolding xv by simp
  with t show ?thesis by auto
qed

lemma humidity_bound:
  assumes "humidity p = Inr h"
  shows "h \<le> 165"
proof -
  let ?n = "nibbles2value (py_slice p 68 76)"
  from assms have len: "1 < length ?n" "0 < length ?n" and hv: "h = 10 * ?n ! 1 + ?n ! 0"
    by (auto simp: humidity_def Let_def and_then_eq_Inr py_index_eq_Inr)
  from len have "?n ! 1 \<le> 15" "?n ! 0 \<le> 15"
    by (simp_all add: nibble_le_15)
  then show ?thesis
    unfolding hv by simp
qed

text \<open>
  The divisions of lines 320 and 321 never divide by zero: \<open>c + temp\<close> is positive, and
  the first quotient stays below \<open>b\<close>.
\<close>

lemma dewpoint_first_divisor:
  assumes "temperature p = Inr t"
  shows "0 < 243.5 + t"
  using temperature_bound [OF assms] by simp

lemma dewpoint_second_divisor:
  assumes "temperature p = Inr t" and "humidity p = Inr h" and "0 < h"
  shows "ln (real h / 100.0) + 17.67 * t / (243.5 + t) < 17.67"
proof -
  have tb: "\<bar>t\<bar> \<le> 166.5"
    using assms(1) by (rule temperature_bound)
  then have pos: "0 < 243.5 + t"
    by simp
  have "real h \<le> 165"
    using humidity_bound [OF assms(2)] by simp
  moreover have "ln (real h / 100) \<le> real h / 100 - 1"
    using assms(3) by (intro ln_le_minus_one) simp
  ultimately have l: "ln (real h / 100) \<le> 0.65"
    by simp
  have "t \<le> 0.9 * (243.5 + t)"
    using tb by simp
  then have "t / (243.5 + t) \<le> 0.9"
    using pos by (simp add: pos_divide_le_eq)
  then have "17.67 * (t / (243.5 + t)) \<le> 17.67 * 0.9"
    by (intro mult_left_mono) simp_all
  then have q: "17.67 * t / (243.5 + t) \<le> 15.903"
    by simp
  from l q show ?thesis by simp
qed

lemma dewpoint_spec:
  "py_round (dewpoint tempC humi) 2 =
     (if humi = 0 then NaN
      else Fin (round_half_away (fahrenheit_spec (magnus_tetens_spec tempC (real humi))) 2))"
proof (cases "humi = 0")
  case True
  then show ?thesis by (simp add: dewpoint_def)
next
  case False
  have lits: "(100.0 :: real) = 100" "(9.0 :: real) = 9" "(5.0 :: real) = 5"
    by simp_all
  have "dewpoint tempC humi = Fin (fahrenheit_spec (magnus_tetens_spec tempC (real humi)))"
    using False
    by (simp only: dewpoint_def magnus_tetens_spec_def fahrenheit_spec_def Let_def lits if_False)
  with False show ?thesis by simp
qed

section \<open>The example packets, evaluated\<close>

lemma pkt_1d30_facts:
  "sync_nibble pkt_1d30 = Inr 10" "sensor_id pkt_1d30 = ''1d30''"
  "checksum_valid pkt_1d30 = Inr True" "humidity pkt_1d30 = Inr 45"
  by code_simp+

lemma pkt_1d30_temperature: "temperature pkt_1d30 = Inr 21.5"
  by code_simp

lemma pkt_1d30_bad_facts:
  "sync_nibble pkt_1d30_bad = Inr 10" "sensor_id pkt_1d30_bad = ''1d30''"
  "checksum_valid pkt_1d30_bad = Inr False"
  by code_simp+

lemma pkt_1d30_short_facts:
  "sync_nibble pkt_1d30_short = Inr 10" "checksum_valid pkt_1d30_short = Inl ValueError"
  by code_simp+

lemma pkt_unknown_facts:
  "sync_nibble pkt_unknown = Inr 10" "sensor_id pkt_unknown = ''1a2d''"
  "checksum_valid pkt_unknown = Inr True" "length pkt_unknown = 80"
  by code_simp+

lemma pkt_nosync_facts: "sync_nibble pkt_nosync = Inr 5"
  by code_simp

lemma pkt_carry_facts:
  "sync_nibble pkt_carry = Inr 10" "sensor_id pkt_carry = ''ffff''"
  "checksum_valid pkt_carry = Inr True" "length pkt_carry = 176"
  "checksum (py_slice pkt_carry 20 160) = 256"
  by code_simp+

lemma bits_1ff_checksum: "checksum bits_1ff = 256"
  by code_simp

lemma stream_facts:
  "length (doubled pkt_1d30_short) = 72"
  "bit_sum (stride2 (py_slice (doubled pkt_1d30_short) 0 32)) = 16"
  "bit_sum (stride2 (py_slice (doubled pkt_1d30_short) (Suc 0) 33)) = 0"
  "stride2 (doubled pkt_1d30_short) = pkt_1d30_short"
  by code_simp+

lemma pkt_1d30_battery: "py_index (nibbles2value (py_slice pkt_1d30 76 80)) 0 = Inr 0"
  by code_simp

lemma pkt_1d30_fields: "fields_1d30 pkt_1d30 = Inr writes_1d30"
proof -
  have "round_half_away (215 / 10 * 9 / 5 + 32) 2 = 70.7"
    by (simp add: round_half_away_def)
  moreover have "round_half_away 45 0 = 45"
    using round_half_away_nat [of 45] by simp
  ultimately show ?thesis
    by (simp add: pkt_1d30_facts pkt_1d30_temperature pkt_1d30_battery fields_1d30_def
        writes_1d30_def)
qed

lemma pkt_1d30_decode:
  "decodePacketv21 pkt_1d30 w = Inr (store (accumulator w) writes_1d30, 192)"
  using decode_valid [of pkt_1d30 w]
  by (auto simp: pkt_1d30_facts pkt_1d30_fields)

lemma pkt_1d30_checksum:
  "nibbles2value (py_slice pkt_1d30 80 (80 + 8)) = [2, 2]"
  "checksum_spec (py_slice pkt_1d30 20 80) = 34"
  by code_simp+

section \<open>The scan loop and its handler\<close>

text \<open>
  What the handler of line 397 does achieve: the loop never ends with an IndexError,
  whatever the decoder; and a stream of at most 32 bits is not scanned at all.
\<close>

lemma scan_never_index_error: "scan decodePacket bits i wxData \<noteq> Inl IndexError"
proof (induction decodePacket bits i wxData rule: scan.induct)
  case (1 decodePacket bits i wxData)
  show ?case
    by (subst scan.simps)
      (use 1 in \<open>auto simp: Let_def split: sum.splits py_error.splits prod.splits\<close>)
qed

lemma scan_short: "length bits \<le> 32 \<Longrightarrow> scan decodePacket bits 0 wxData = Inr wxData"
  by (subst scan.simps) simp

section \<open>Properties of the decoder and the scan\<close>

text \<open>
  C1 says that no error of the decoder leaves the scan loop, a packet cut short being
  absorbed like a failed decode. The code does not keep to it. The stream
  \<open>doubled pkt_1d30_short\<close> has the preamble at offset 0, then the sync nibble and the
  sensor id 1d30, and ends there. The decoder reaches the unpacking of line 195 with no
  check nibbles to unpack; that raises ValueError, which the handler of line 397, written
  for IndexError, does not catch: the scan ends with the exception. (As the loop is
  written, it calls the unbound name \<^verbatim>\<open>decodePacket\<close>, and the NameError of that call ends
  the scan in the same way.)
\<close>

theorem C1_value_error_escapes:
  "scan decodePacketv21 (doubled pkt_1d30_short) 0 wxData = Inl ValueError
     \<and> scan (\<lambda>packet wxData. Inl NameError) (doubled pkt_1d30_short) 0 wxData = Inl NameError"
proof -
  have "decodePacketv21 pkt_1d30_short (Some wxData) = Inl ValueError"
    by (simp add: decode_sync pkt_1d30_short_facts)
  then show ?thesis
    by (simp add: scan.simps [of _ _ 0] stream_facts)
qed

theorem C1_value_error_escapes_witness:
  "scan decodePacketv21 (doubled pkt_1d30_short) 0 wx_before = Inl ValueError"
  using C1_value_error_escapes [of wx_before] by blast

text \<open>
  C2. Whenever the decoder returns and the checksum comparison of line 196 did not
  succeed, the dictionary it returns is the one it was given (the new, empty one when
  it was given none): no field is written without a matching checksum.
\<close>

theorem C2_no_write_without_checksum:
  assumes "decodePacketv21 packet wxData = Inr (wxData', n)"
    and "checksum_valid packet \<noteq> Inr True"
  shows "wxData' = accumulator wxData"
  using assms by (cases rule: decode_Inr_cases) simp_all

theorem C2_no_write_without_checksum_witness:
  "decodePacketv21 pkt_1d30_bad (Some [''tempf'' \<mapsto> PyFloat (Fin 50)])
       = Inr ([''tempf'' \<mapsto> PyFloat (Fin 50)], 192)
     \<and> checksum_valid pkt_1d30_bad \<noteq> Inr True
     \<and> [''tempf'' \<mapsto> PyFloat (Fin 50)] = accumulator (Some [''tempf'' \<mapsto> PyFloat (Fin 50)])"
proof -
  have d: "decodePacketv21 pkt_1d30_bad (Some [''tempf'' \<mapsto> PyFloat (Fin 50)])
             = Inr ([''tempf'' \<mapsto> PyFloat (Fin 50)], 192)"
    by (simp add: decode_invalid pkt_1d30_bad_facts accumulator_def)
  have c: "checksum_valid pkt_1d30_bad \<noteq> Inr True"
    by (simp add: pkt_1d30_bad_facts)
  from C2_no_write_without_checksum [OF d c] d c show ?thesis by blast
qed

text \<open>
  C3. The checksum of a bit sequence is the sum of its nibbles, each read with the least
  significant bit first, with the part above the low byte added back. A packet with the
  sync nibble, the data end \<open>ds\<close> of its sensor id and two check nibbles at
  \<open>[ds, ds + 8)\<close> is accepted, that is its sensor's assignments are stored, exactly when
  the first check nibble is the low nibble and the second the high nibble of the checksum
  of the bits \<open>[20, ds)\<close>; otherwise the dictionary is returned as it was.
\<close>

theorem C3_checksum_accepts:
  assumes "sync_nibble packet = Inr 10"
    and "ds = data_end (sensor_id packet) packet"
    and "nibbles2value (py_slice packet ds (ds + 8)) = [ocs1, ocs2]"
    and "ccs = checksum_spec (py_slice packet 20 ds)"
  shows "checksum bits = checksum_spec bits
     \<and> (\<exists>ws. sensor_fields (sensor_id packet) packet = Inr ws
          \<and> decodePacketv21 packet wxData
              = Inr (if ocs1 = low_nibble_spec ccs \<and> ocs2 = high_nibble_spec ccs
                     then store (accumulator wxData) ws else accumulator wxData,
                     (ds + 16) * 2))"
proof -
  from assms(3) have "ds + 8 \<le> length packet"
    by (rule observed_length)
  then obtain ws where ws: "sensor_fields (sensor_id packet) packet = Inr ws"
    using sensor_fields_total [of "sensor_id packet" packet] assms(2) by auto
  have v: "checksum_valid packet
             = Inr (ocs1 = low_nibble_spec ccs \<and> ocs2 = high_nibble_spec ccs)"
    using assms(2-4)
    by (simp add: checksum_valid_def Let_def cs_compare_arith checksum_arith)
  have "decodePacketv21 packet wxData
          = Inr (if ocs1 = low_nibble_spec ccs \<and> ocs2 = high_nibble_spec ccs
                 then store (accumulator wxData) ws else accumulator wxData,
                 (ds + 16) * 2)"
    using assms(1,2) ws v by (simp add: decode_sync)
  with ws show ?thesis
    by (auto simp: checksum_arith)
qed

theorem C3_checksum_accepts_witness:
  "sync_nibble pkt_1d30 = Inr 10
     \<and> 80 = data_end (sensor_id pkt_1d30) pkt_1d30
     \<and> nibbles2value (py_slice pkt_1d30 80 (80 + 8)) = [2, 2]
     \<and> 34 = checksum_spec (py_slice pkt_1d30 20 80)
     \<and> low_nibble_spec 34 = 2 \<and> high_nibble_spec 34 = 2
     \<and> checksum pkt_1d30 = checksum_spec pkt_1d30
     \<and> decodePacketv21 pkt_1d30 None = Inr (store (accumulator None) writes_1d30, (80 + 16) * 2)"
proof -
  have s: "sync_nibble pkt_1d30 = Inr 10"
    by (rule pkt_1d30_facts)
  have e: "80 = data_end (sensor_id pkt_1d30) pkt_1d30"
    by (simp add: pkt_1d30_facts)
  have n: "nibbles2value (py_slice pkt_1d30 80 (80 + 8)) = [2, 2]"
    by (rule pkt_1d30_checksum)
  have c: "34 = checksum_spec (py_slice pkt_1d30 20 80)"
    by (simp add: pkt_1d30_checksum)
  have l: "low_nibble_spec 34 = 2" "high_nibble_spec 34 = 2"
    by (simp_all add: low_nibble_spec_def high_nibble_spec_def)
  from C3_checksum_accepts [OF s e n c, of pkt_1d30 None] l
  have "checksum pkt_1d30 = checksum_spec pkt_1d30"
    and "decodePacketv21 pkt_1d30 None = Inr (store (accumulator None) writes_1d30, (80 + 16) * 2)"
    by (auto simp: pkt_1d30_facts pkt_1d30_fields)
  with s e n c l show ?thesis by blast
qed

text \<open>
  C4, as the code has it. A packet whose sync nibble at \<open>[16,20)\<close> is not 10 leaves the
  dictionary as it was passed in; the data end is set to 0 (line 325), and lines 329-330
  turn it into the returned size \<open>(0 + 16) * 2 = 32\<close>, not 0.
\<close>

theorem C4_nosync_returns_32:
  assumes "sync_nibble packet = Inr s" and "s \<noteq> 10"
  shows "decodePacketv21 packet wxData = Inr (accumulator wxData, (0 + 16) * 2)"
  using assms by (simp add: decodePacketv21_def Let_def)

theorem C4_nosync_returns_32_witness:
  "sync_nibble pkt_nosync = Inr 5 \<and> (5 :: nat) \<noteq> 10
     \<and> decodePacketv21 pkt_nosync (Some [''tempf'' \<mapsto> PyFloat (Fin 50)])
         = Inr (accumulator (Some [''tempf'' \<mapsto> PyFloat (Fin 50)]), (0 + 16) * 2)"
proof -
  have s: "sync_nibble pkt_nosync = Inr 5" by (rule pkt_nosync_facts)
  have n: "(5 :: nat) \<noteq> 10" by simp
  from C4_nosync_returns_32 [OF s n] s n show ?thesis by blast
qed

text \<open>
  C4 as the specification words it fails: for the packet \<open>pkt_nosync\<close>, whose sync nibble
  is 5, the decoder does not return the size 0.
\<close>

theorem C4_size_zero_counterexample:
  "sync_nibble pkt_nosync = Inr 5
     \<and> decodePacketv21 pkt_nosync None \<noteq> Inr (accumulator None, 0)
     \<and> decodePacketv21 pkt_nosync None = Inr (accumulator None, 32)"
proof -
  have "decodePacketv21 pkt_nosync None = Inr (accumulator None, 32)"
    using pkt_nosync_facts by (simp add: decode_nosync)
  then show ?thesis
    using pkt_nosync_facts by simp
qed

text \<open>
  C5. For a packet of sensor 1d30 with the sync nibble and a checksum that validates, the
  temperature \<open>tempC\<close> and the humidity are decoded without an exception, and the decoder
  returns the dictionary with three keys assigned: \<open>tempf\<close>, the temperature in
  Fahrenheit, \<open>humidity\<close>, and \<open>dewptf\<close>, the dew point of the Magnus-Tetens approximation
  in Fahrenheit; the temperatures are rounded to two places. For the humidity 0 the
  logarithm is minus infinity and the dew point is not a number.
\<close>

theorem C5_1d30_fields:
  assumes "sync_nibble packet = Inr 10"
    and "sensor_id packet = ''1d30''"
    and "checksum_valid packet = Inr True"
  shows "\<exists>tempC humi.
      temperature packet = Inr tempC \<and> humidity packet = Inr humi
      \<and> decodePacketv21 packet wxData =
          Inr ((accumulator wxData)
                (''tempf'' \<mapsto> PyFloat (Fin (round_half_away (fahrenheit_spec tempC) 2)),
                 ''humidity'' \<mapsto> PyFloat (Fin (real humi)),
                 ''dewptf'' \<mapsto> PyFloat
                    (if humi = 0 then NaN
                     else Fin (round_half_away
                            (fahrenheit_spec (magnus_tetens_spec tempC (real humi))) 2))),
               192)"
proof -
  from decode_valid [OF assms(1,3), of wxData] assms(2) obtain ws
    where ws: "fields_1d30 packet = Inr ws"
      and d: "decodePacketv21 packet wxData = Inr (store (accumulator wxData) ws, 192)"
    by auto
  from ws obtain tempC humi
    where t: "temperature packet = Inr tempC" and h: "humidity packet = Inr humi"
      and w: "ws = [(''tempf'', PyFloat (py_round (Fin (tempC * 9.0 / 5.0 + 32)) 2)),
                    (''humidity'', PyFloat (py_round (Fin (real humi)) 0)),
                    (''dewptf'', PyFloat (py_round (dewpoint tempC humi) 2))]"
    by (auto simp: fields_1d30_def and_then_eq_Inr simp del: py_round.simps)
  have "store (accumulator wxData) ws =
          (accumulator wxData)
            (''tempf'' \<mapsto> PyFloat (Fin (round_half_away (fahrenheit_spec tempC) 2)),
             ''humidity'' \<mapsto> PyFloat (Fin (real humi)),
             ''dewptf'' \<mapsto> PyFloat
                (if humi = 0 then NaN
                 else Fin (round_half_away
                        (fahrenheit_spec (magnus_tetens_spec tempC (real humi))) 2)))"
    unfolding w dewpoint_spec by (simp add: fahrenheit_spec_def)
  with d t h show ?thesis by simp
qed

theorem C5_1d30_fields_witness:
  "sync_nibble pkt_1d30 = Inr 10 \<and> sensor_id pkt_1d30 = ''1d30''
     \<and> checksum_valid pkt_1d30 = Inr True
     \<and> temperature pkt_1d30 = Inr 21.5 \<and> humidity pkt_1d30 = Inr 45
     \<and> fahrenheit_spec 21.5 = 70.7
     \<and> decodePacketv21 pkt_1d30 None =
          Inr ([''tempf'' \<mapsto> PyFloat (Fin 70.7),
                ''humidity'' \<mapsto> PyFloat (Fin 45),
                ''dewptf'' \<mapsto> PyFloat (Fin (round_half_away
                    (fahrenheit_spec (magnus_tetens_spec 21.5 45)) 2))], 192)"
proof -
  have s: "sync_nibble pkt_1d30 = Inr 10" and i: "sensor_id pkt_1d30 = ''1d30''"
    and v: "checksum_valid pkt_1d30 = Inr True"
    by (rule pkt_1d30_facts)+
  have f: "fahrenheit_spec 21.5 = 70.7"
    by (simp add: fahrenheit_spec_def)
  have r: "round_half_away 70.7 2 = 70.7"
    by (simp add: round_half_away_def)
  from C5_1d30_fields [OF s i v, of None] obtain tempC humi
    where t: "temperature pkt_1d30 = Inr tempC" and h: "humidity pkt_1d30 = Inr humi"
      and d: "decodePacketv21 pkt_1d30 None =
          Inr ((accumulator None)
                (''tempf'' \<mapsto> PyFloat (Fin (round_half_away (fahrenheit_spec tempC) 2)),
                 ''humidity'' \<mapsto> PyFloat (Fin (real humi)),
                 ''dewptf'' \<mapsto> PyFloat
                    (if humi = 0 then NaN
                     else Fin (round_half_away
                            (fahrenheit_spec (magnus_tetens_spec tempC (real humi))) 2))),
               192)"
    by blast
  from t have tc: "tempC = 21.5"
    by (simp add: pkt_1d30_temperature)
  from h have hc: "humi = 45"
    by (simp add: pkt_1d30_facts)
  have "decodePacketv21 pkt_1d30 None =
          Inr ([''tempf'' \<mapsto> PyFloat (Fin 70.7),
                ''humidity'' \<mapsto> PyFloat (Fin 45),
                ''dewptf'' \<mapsto> PyFloat (Fin (round_half_away
                    (fahrenheit_spec (magnus_tetens_spec 21.5 45)) 2))], 192)"
    unfolding d tc hc f r by (simp add: accumulator_def)
  with s i v f t h tc hc show ?thesis
    by simp
qed

text \<open>
  C6. For a packet whose sync nibble can be read and whose sensor id is none of the five
  of the table, the data end is \<open>len(packet) - 16\<close>, the checksum comparison is carried
  out without an exception, and whatever it finds, the dictionary is returned as it was
  passed in; the returned size is that of the data end when the sync nibble is 10.
\<close>

theorem C6_unknown_sensor_no_fields:
  assumes "sync_nibble packet = Inr s" and "sensor_id packet \<notin> set known_sensors"
  shows "data_end (sensor_id packet) packet = length packet - 16
     \<and> (\<exists>v. checksum_valid packet = Inr v)
     \<and> decodePacketv21 packet wxData
         = Inr (accumulator wxData, if s = 10 then (length packet - 16 + 16) * 2 else 32)"
proof -
  let ?ds = "data_end (sensor_id packet) packet"
  have ds: "?ds = length packet - 16"
    using assms(2) by (rule data_end_unknown)
  have len: "20 \<le> length packet"
    using assms(1) by (rule sync_nibble_length)
  have "length (nibbles2value (py_slice packet ?ds (?ds + 8))) = 2"
    using len by (simp add: ds length_nibbles2value length_py_slice)
  then obtain ocs1 ocs2 where "nibbles2value (py_slice packet ?ds (?ds + 8)) = [ocs1, ocs2]"
    by (auto simp: length_Suc_conv numeral_2_eq_2)
  then obtain v where v: "checksum_valid packet = Inr v"
    by (simp add: checksum_valid_def Let_def cs_compare_eq_Inr)
  have "decodePacketv21 packet wxData
          = Inr (accumulator wxData, if s = 10 then (length packet - 16 + 16) * 2 else 32)"
  proof (cases "s = 10")
    case True
    with assms v show ?thesis
      by (simp add: decode_sync sensor_fields_unknown ds)
  next
    case False
    with assms show ?thesis
      by (simp add: decode_nosync)
  qed
  with ds v show ?thesis by blast
qed

theorem C6_unknown_sensor_no_fields_witness:
  "sync_nibble pkt_unknown = Inr 10 \<and> sensor_id pkt_unknown \<notin> set known_sensors
     \<and> checksum_valid pkt_unknown = Inr True
     \<and> decodePacketv21 pkt_unknown (Some [''tempf'' \<mapsto> PyFloat (Fin 50)])
         = Inr ([''tempf'' \<mapsto> PyFloat (Fin 50)], 160)"
proof -
  have s: "sync_nibble pkt_unknown = Inr 10" by (rule pkt_unknown_facts)
  have u: "sensor_id pkt_unknown \<notin> set known_sensors"
    by (simp add: pkt_unknown_facts known_sensors_def)
  from C6_unknown_sensor_no_fields [OF s u, of "Some [''tempf'' \<mapsto> PyFloat (Fin 50)]"] s u
  show ?thesis
    by (simp add: pkt_unknown_facts accumulator_def)
qed

text \<open>
  C7. Decoding is idempotent on the dictionary: when a call returns a dictionary, a
  second call with the same packet and that dictionary returns the same dictionary (and
  the same size). This holds for every packet, valid or not.
\<close>

theorem C7_decode_idempotent:
  assumes "decodePacketv21 packet wxData = Inr (wxData', n)"
  shows "decodePacketv21 packet (Some wxData') = Inr (wxData', n)"
proof -
  from decode_writes_ex [OF assms] obtain ws
    where all: "\<forall>w'. decodePacketv21 packet w' = Inr (store (accumulator w') ws, n)"
    by blast
  from all assms have "wxData' = store (accumulator wxData) ws"
    by simp
  with all [rule_format, of "Some wxData'"] show ?thesis
    by (simp add: accumulator_def store_idem)
qed

theorem C7_decode_idempotent_witness:
  "decodePacketv21 pkt_1d30 (Some wx_before) = Inr (store wx_before writes_1d30, 192)
     \<and> decodePacketv21 pkt_1d30 (Some (store wx_before writes_1d30))
         = Inr (store wx_before writes_1d30, 192)"
proof -
  have d: "decodePacketv21 pkt_1d30 (Some wx_before) = Inr (store wx_before writes_1d30, 192)"
    by (simp add: pkt_1d30_decode accumulator_def)
  from C7_decode_idempotent [OF d] d show ?thesis by blast
qed



text \<open>
  C9. The checksum is not always a value of eight bits: the thirty-five nibbles of
  \<open>bits_1ff\<close> add up to 0x1FF and their checksum is 256. The comparison of line 196 uses
  the two low nibbles of the checksum only, so it cannot tell a checksum from its low
  byte: the packet \<open>pkt_carry\<close>, whose checksum is 256, validates with the check nibbles
  0 and 0.
\<close>

theorem C9_checksum_exceeds_byte:
  "checksum bits_1ff = 256 \<and> 0xFF < checksum bits_1ff
     \<and> (\<forall>ccs observed. cs_compare (ccs mod 256) observed = cs_compare ccs observed)
     \<and> checksum (py_slice pkt_carry 20 (data_end (sensor_id pkt_carry) pkt_carry)) = 256
     \<and> nibbles2value (py_slice pkt_carry 160 (160 + 8)) = [0, 0]
     \<and> checksum_valid pkt_carry = Inr True"
proof -
  have "data_end (sensor_id pkt_carry) pkt_carry = 160"
    by (simp add: pkt_carry_facts data_end_def)
  moreover have "nibbles2value (py_slice pkt_carry 160 (160 + 8)) = [0, 0]"
    by code_simp
  ultimately show ?thesis
    by (simp add: bits_1ff_checksum cs_compare_mod_256 pkt_carry_facts)
qed

theorem C9_checksum_exceeds_byte_witness:
  "checksum bits_1ff = 256 \<and> cs_compare 256 [0, 0] = cs_compare 0 [0, 0]
     \<and> checksum_valid pkt_carry = Inr True"
proof -
  from C9_checksum_exceeds_byte have "cs_compare (256 mod 256) [0, 0] = cs_compare 256 [0, 0]"
    by blast
  with C9_checksum_exceeds_byte show ?thesis by simp
qed

text \<open>
  C10. A call that returns keeps every key of the dictionary it was given, and changes
  no value outside the keys its sensor's branch assigns; with no dictionary it behaves
  as with an empty one.
\<close>

theorem C10_frame:
  assumes "decodePacketv21 packet wxData = Inr (wxData', n)"
  shows "dom (accumulator wxData) \<subseteq> dom wxData'
     \<and> (\<forall>k. k \<notin> set (emitted_fields (sensor_id packet)) \<longrightarrow> wxData' k = accumulator wxData k)
     \<and> decodePacketv21 packet None = decodePacketv21 packet (Some Map.empty)"
proof -
  from decode_writes_ex [OF assms] obtain ws
    where all: "\<forall>w'. decodePacketv21 packet w' = Inr (store (accumulator w') ws, n)"
      and ws: "ws = [] \<or> sensor_fields (sensor_id packet) packet = Inr ws"
    by blast
  from all assms have eq: "wxData' = store (accumulator wxData) ws"
    by simp
  have keys: "fst ` set ws \<subseteq> set (emitted_fields (sensor_id packet))"
  proof -
    from ws show ?thesis
    proof
      assume "ws = []"
      then show ?thesis by simp
    next
      assume "sensor_fields (sensor_id packet) packet = Inr ws"
      then have "map fst ws = emitted_fields (sensor_id packet)"
        by (rule sensor_fields_keys)
      then have "set (map fst ws) = set (emitted_fields (sensor_id packet))"
        by simp
      then show ?thesis by simp
    qed
  qed
  have "dom (accumulator wxData) \<subseteq> dom wxData'"
    by (simp add: eq dom_store)
  moreover have "wxData' k = accumulator wxData k"
    if "k \<notin> set (emitted_fields (sensor_id packet))" for k
  proof -
    from that keys have "k \<notin> fst ` set ws" by blast
    then show ?thesis by (simp add: eq store_outside)
  qed
  moreover have "decodePacketv21 packet None = decodePacketv21 packet (Some Map.empty)"
    by (simp add: decodePacketv21_def accumulator_def)
  ultimately show ?thesis by blast
qed

theorem C10_frame_witness:
  "decodePacketv21 pkt_1d30 (Some wx_before) = Inr (store wx_before writes_1d30, 192)
     \<and> dom wx_before \<subseteq> dom (store wx_before writes_1d30)
     \<and> ''dateutc'' \<notin> set (emitted_fields (sensor_id pkt_1d30))
     \<and> store wx_before writes_1d30 ''dateutc'' = wx_before ''dateutc''
     \<and> decodePacketv21 pkt_1d30 None = decodePacketv21 pkt_1d30 (Some Map.empty)"
proof -
  have d: "decodePacketv21 pkt_1d30 (Some wx_before) = Inr (store wx_before writes_1d30, 192)"
    by (simp add: pkt_1d30_decode accumulator_def)
  have k: "''dateutc'' \<notin> set (emitted_fields (sensor_id pkt_1d30))"
    by (simp add: pkt_1d30_facts emitted_fields_def)
  from C10_frame [OF d] k d show ?thesis
    by (simp add: accumulator_def)
qed

end
